theory Spec2Isabelle
  imports Main "HOL-Library.AList"
begin

section \<open>Values, errors and bus payloads\<close>

text \<open>
  The source is \<^verbatim>\<open>src/index.ts\<close>. Identifiers are strings (\<^verbatim>\<open>type uuid = string\<close>); the
  ones the program stores under are produced by \<^verbatim>\<open>uuidgen()\<close>. Arguments and results are
  \<^verbatim>\<open>any\<close>: the model has \<^verbatim>\<open>undefined\<close>, numbers, strings, arrays, and references to promise
  objects that a registered function has created (\<open>VPromise\<close>), which is what an \<^verbatim>\<open>async\<close>
  function returns.
\<close>

type_synonym uuid = string

datatype val =
  VUndefined
  | VNum int
  | VStr string
  | VArr "val list"
  | VPromise nat

fun is_promise :: "val \<Rightarrow> bool" where
  "is_promise (VPromise p) = True"
| "is_promise v = False"

text \<open>
  What the modelled code can throw: the \<^verbatim>\<open>Error\<close> of \<^verbatim>\<open>delegate\<close>, the \<^verbatim>\<open>TypeError\<close> the
  runtime raises when a member of \<^verbatim>\<open>undefined\<close> is read or a non-function is called, and
  whatever a registered function throws itself.
\<close>

datatype jserror =
  UnregisteredDelegate uuid
  | TypeError
  | Thrown val

text \<open>A registered function, as \<^verbatim>\<open>fn.apply(null, args)\<close> sees it: it returns or throws.\<close>

type_synonym fn = "val list \<Rightarrow> jserror + val"

text \<open>
  The payload types. Field names follow the source, prefixed where two payloads share
  a name: \<open>req_id\<close>, \<open>req_rid\<close>, \<open>req_args\<close> are \<^verbatim>\<open>id\<close>, \<^verbatim>\<open>rid\<close>, \<^verbatim>\<open>args\<close> of
  \<^verbatim>\<open>DelegateRequest\<close>, and \<open>reply_delegatorId\<close> is \<^verbatim>\<open>delegatorId\<close> of \<^verbatim>\<open>RegisterReply\<close>.
  The reply's \<^verbatim>\<open>args\<close> is whatever the registered function returned.
\<close>

record DelegateRequest =
  req_id :: uuid
  req_rid :: uuid
  req_args :: "val list"

record DelegateReply =
  rid :: uuid
  args :: val

record RegisterRequest =
  senderId :: uuid
  delegatorId :: uuid

type_synonym UnregisterRequest = RegisterRequest

record RegisterReply =
  reply_delegatorId :: uuid

text \<open>
  The five event names of the emitter: \<^verbatim>\<open>'register'\<close>, \<^verbatim>\<open>'@register'\<close>, \<^verbatim>\<open>'delegate'\<close>,
  \<^verbatim>\<open>'@delegate'\<close>, \<^verbatim>\<open>'unregister'\<close>, each with its payload.
\<close>

datatype event =
  Ev_register RegisterRequest
  | Ev_register_reply RegisterReply
  | Ev_delegate DelegateRequest
  | Ev_delegate_reply DelegateReply
  | Ev_unregister UnregisterRequest

section \<open>The runtime: Deferred objects, the microtask queue, uuidgen\<close>

text \<open>
  A \<^verbatim>\<open>Deferred\<close> is an object with identity: the model keeps them in a heap, addressed by
  position. \<open>Resolved v\<close> records that the promise's \<^verbatim>\<open>resolve\<close> function has been called
  with \<open>v\<close> while the promise was unresolved; a later \<^verbatim>\<open>resolve\<close> or \<^verbatim>\<open>reject\<close> does nothing, as
  for every JavaScript promise.

  \<open>microtasks\<close> is the queue \<^verbatim>\<open>queueMicrotask\<close> appends to: every microtask of the program
  is one \<^verbatim>\<open>emitter.emit(event, payload)\<close>, so the queue holds events. \<open>drawn\<close> counts the
  calls of \<^verbatim>\<open>uuidgen\<close> so far; the identifiers it returns are a parameter \<open>gen\<close> of the
  model (the uuid package is not part of the repository).
\<close>

datatype deferred = Pending | Resolved val | Rejected val

record runtime =
  heap :: "deferred list"
  microtasks :: "event list"
  drawn :: nat

definition emit :: "event \<Rightarrow> runtime \<Rightarrow> runtime" where
  "emit e rt = rt\<lparr>microtasks := microtasks rt @ [e]\<rparr>"

definition uuidgen :: "(nat \<Rightarrow> uuid) \<Rightarrow> runtime \<Rightarrow> uuid \<times> runtime" where
  "uuidgen gen rt = (gen (drawn rt), rt\<lparr>drawn := Suc (drawn rt)\<rparr>)"

definition new_Deferred :: "runtime \<Rightarrow> nat \<times> runtime" where
  "new_Deferred rt = (length (heap rt), rt\<lparr>heap := heap rt @ [Pending]\<rparr>)"

definition Deferred_resolve :: "nat \<Rightarrow> val \<Rightarrow> runtime \<Rightarrow> runtime" where
  "Deferred_resolve d v rt =
     (if d < length (heap rt) \<and> heap rt ! d = Pending
      then rt\<lparr>heap := (heap rt)[d := Resolved v]\<rparr> else rt)"

definition Deferred_reject :: "nat \<Rightarrow> val \<Rightarrow> runtime \<Rightarrow> runtime" where
  "Deferred_reject d v rt =
     (if d < length (heap rt) \<and> heap rt ! d = Pending
      then rt\<lparr>heap := (heap rt)[d := Rejected v]\<rparr> else rt)"

section \<open>DelegatePool\<close>

text \<open>
  Every method takes the runtime and the instance and returns what the call produced
  (\<open>Inl\<close> for a throw) with both as the call left them.

  \<open>pool\<close> is a plain object used as a dictionary from reply identifiers to Deferreds.
  \<^verbatim>\<open>this.pool[rid]\<close> of a name that the object does not hold itself is \<^verbatim>\<open>undefined\<close>, or
  a member inherited from \<^verbatim>\<open>Object.prototype\<close>; neither has a \<^verbatim>\<open>resolve\<close> method, so
  \<^verbatim>\<open>this.pool[rid].resolve(...)\<close> throws a \<^verbatim>\<open>TypeError\<close> in both cases. The same holds for
  \<^verbatim>\<open>uponRegister\<close> of the \<^verbatim>\<open>DelegatorPool\<close>.
\<close>

record DelegatePool =
  delegates :: "uuid set"
  pool :: "uuid \<rightharpoonup> nat"

definition new_DelegatePool :: DelegatePool where
  "new_DelegatePool = \<lparr>delegates = {}, pool = Map.empty\<rparr>"

text \<open>\<^verbatim>\<open>create(id)\<close> returns the closure \<^verbatim>\<open>(args) => this.delegate(id, ...args)\<close>; its effect
  on the pool is the added identifier.\<close>

definition create :: "uuid \<Rightarrow> DelegatePool \<Rightarrow> DelegatePool" where
  "create i dp = dp\<lparr>delegates := insert i (delegates dp)\<rparr>"

definition delegate ::
  "(nat \<Rightarrow> uuid) \<Rightarrow> uuid \<Rightarrow> val list \<Rightarrow> runtime \<times> DelegatePool
     \<Rightarrow> (jserror + nat) \<times> runtime \<times> DelegatePool" where
  "delegate gen i as = (\<lambda>(rt, dp).
     if i \<notin> delegates dp then (Inl (UnregisteredDelegate i), rt, dp)
     else
       let (r, rt1) = uuidgen gen rt;
           (d, rt2) = new_Deferred rt1;
           dp' = dp\<lparr>pool := (pool dp)(r \<mapsto> d)\<rparr>;
           rt3 = emit (Ev_delegate \<lparr>req_id = i, req_rid = r, req_args = as\<rparr>) rt2
       in (case pool dp' r of
             None \<Rightarrow> (Inl TypeError, rt3, dp')
           | Some p \<Rightarrow> (Inr p, rt3, dp')))"

definition handleDelegateReply ::
  "DelegateReply \<Rightarrow> runtime \<times> DelegatePool \<Rightarrow> (jserror + unit) \<times> runtime \<times> DelegatePool" where
  "handleDelegateReply reply = (\<lambda>(rt, dp).
     case pool dp (rid reply) of
       None \<Rightarrow> (Inl TypeError, rt, dp)
     | Some d \<Rightarrow> (Inr (), Deferred_resolve d (args reply) rt, dp))"

definition handleUnregisterRequest ::
  "UnregisterRequest \<Rightarrow> runtime \<times> DelegatePool \<Rightarrow> (jserror + unit) \<times> runtime \<times> DelegatePool" where
  "handleUnregisterRequest req = (\<lambda>(rt, dp).
     (Inr (), rt, dp\<lparr>delegates := delegates dp - {delegatorId req}\<rparr>))"

section \<open>DelegatorPool\<close>

text \<open>
  \<open>fn_pool\<close> is the field \<^verbatim>\<open>pool\<close> and \<open>own_id\<close> the field \<^verbatim>\<open>id\<close> of the class.
  The identifiers stored in it come from \<^verbatim>\<open>uuidgen\<close>; for such keys (none of them is an
  array index) \<^verbatim>\<open>Object.keys\<close> lists them in the order they were stored, so the functions
  are kept in an association list that \<open>AList.update\<close> extends at its end.

  \<^verbatim>\<open>this.pool[req.id]\<close> on a plain object also finds the members the object inherits from
  \<^verbatim>\<open>Object.prototype\<close> (\<^verbatim>\<open>toString\<close>, \<^verbatim>\<open>valueOf\<close>, ...). They belong to the runtime, not to the
  repository: the parameter \<open>inherited\<close> gives, for a name, the inherited member that has
  a callable \<^verbatim>\<open>apply\<close>, if there is one.
\<close>

record DelegatorPool =
  own_id :: uuid
  fn_pool :: "(uuid \<times> fn) list"
  uponRegister :: "uuid \<rightharpoonup> nat"

definition new_DelegatorPool :: "(nat \<Rightarrow> uuid) \<Rightarrow> runtime \<Rightarrow> runtime \<times> DelegatorPool" where
  "new_DelegatorPool gen rt =
     (let (i, rt1) = uuidgen gen rt
      in (rt1, \<lparr>own_id = i, fn_pool = [], uponRegister = Map.empty\<rparr>))"

definition create_fn ::
  "(nat \<Rightarrow> uuid) \<Rightarrow> fn \<Rightarrow> runtime \<times> DelegatorPool
     \<Rightarrow> (jserror + uuid \<times> fn) \<times> runtime \<times> DelegatorPool" where
  "create_fn gen f = (\<lambda>(rt, dr).
     let (i, rt1) = uuidgen gen rt
     in (Inr (i, f), rt1, dr\<lparr>fn_pool := AList.update i f (fn_pool dr)\<rparr>))"

definition register ::
  "uuid \<Rightarrow> runtime \<times> DelegatorPool \<Rightarrow> (jserror + nat) \<times> runtime \<times> DelegatorPool" where
  "register i = (\<lambda>(rt, dr).
     let (d, rt1) = new_Deferred rt;
         dr' = dr\<lparr>uponRegister := (uponRegister dr)(i \<mapsto> d)\<rparr>;
         rt2 = emit (Ev_register \<lparr>senderId = own_id dr, delegatorId = i\<rparr>) rt1
     in (Inr d, rt2, dr'))"

definition lookup_fn :: "(uuid \<rightharpoonup> fn) \<Rightarrow> DelegatorPool \<Rightarrow> uuid \<Rightarrow> fn option" where
  "lookup_fn inherited dr i =
     (case map_of (fn_pool dr) i of Some f \<Rightarrow> Some f | None \<Rightarrow> inherited i)"

definition handleDelegateRequest ::
  "(uuid \<rightharpoonup> fn) \<Rightarrow> DelegateRequest \<Rightarrow> runtime \<times> DelegatorPool
     \<Rightarrow> (jserror + unit) \<times> runtime \<times> DelegatorPool" where
  "handleDelegateRequest inherited req = (\<lambda>(rt, dr).
     case lookup_fn inherited dr (req_id req) of
       None \<Rightarrow> (Inl TypeError, rt, dr)
     | Some f \<Rightarrow>
         (case f (req_args req) of
            Inl e \<Rightarrow> (Inl e, rt, dr)
          | Inr result \<Rightarrow>
              (Inr (), emit (Ev_delegate_reply \<lparr>rid = req_rid req, args = result\<rparr>) rt, dr)))"

definition handleRegisterReply ::
  "RegisterReply \<Rightarrow> runtime \<times> DelegatorPool \<Rightarrow> (jserror + unit) \<times> runtime \<times> DelegatorPool" where
  "handleRegisterReply req = (\<lambda>(rt, dr).
     case uponRegister dr (reply_delegatorId req) of
       None \<Rightarrow> (Inl TypeError, rt, dr)
     | Some d \<Rightarrow> (Inr (), Deferred_resolve d VUndefined rt, dr))"

definition dispose ::
  "runtime \<times> DelegatorPool \<Rightarrow> (jserror + unit) \<times> runtime \<times> DelegatorPool" where
  "dispose = (\<lambda>(rt, dr).
     (Inr (),
      fold (\<lambda>k. emit (Ev_unregister \<lparr>senderId = own_id dr, delegatorId = k\<rparr>))
        (map fst (fn_pool dr)) rt,
      dr))"

section \<open>The program: one pool of each kind on the emitter\<close>

text \<open>
  \<^verbatim>\<open>main\<close> creates one \<^verbatim>\<open>DelegatePool\<close> (\<^verbatim>\<open>delegates\<close>) and one \<^verbatim>\<open>DelegatorPool\<close>
  (\<^verbatim>\<open>delegators\<close>) on the module's emitter. The listeners of an event run in the order they
  were added: the module's \<^verbatim>\<open>debug\<close> listener first (it prints, and changes nothing of the
  state modelled here), then the one listener a pool or \<^verbatim>\<open>main\<close> has added for it.
\<close>

record world =
  main_runtime :: runtime
  main_delegates :: DelegatePool
  main_delegators :: DelegatorPool

definition on_delegates ::
  "(runtime \<times> DelegatePool \<Rightarrow> (jserror + 'a) \<times> runtime \<times> DelegatePool)
     \<Rightarrow> world \<Rightarrow> (jserror + unit) \<times> world" where
  "on_delegates m w =
     (case m (main_runtime w, main_delegates w) of
        (out, rt', dp') \<Rightarrow>
          (case out of Inl e \<Rightarrow> Inl e | Inr x \<Rightarrow> Inr (),
           w\<lparr>main_runtime := rt', main_delegates := dp'\<rparr>))"

definition on_delegators ::
  "(runtime \<times> DelegatorPool \<Rightarrow> (jserror + 'a) \<times> runtime \<times> DelegatorPool)
     \<Rightarrow> world \<Rightarrow> (jserror + unit) \<times> world" where
  "on_delegators m w =
     (case m (main_runtime w, main_delegators w) of
        (out, rt', dr') \<Rightarrow>
          (case out of Inl e \<Rightarrow> Inl e | Inr x \<Rightarrow> Inr (),
           w\<lparr>main_runtime := rt', main_delegators := dr'\<rparr>))"

text \<open>
  The \<^verbatim>\<open>'register'\<close> listener of \<^verbatim>\<open>main\<close>: it creates the delegate and acknowledges. The
  timer it starts calls the delegate later, from outside the listener: those calls are
  the action \<open>Call\<close> below.
\<close>

definition on_register :: "RegisterRequest \<Rightarrow> world \<Rightarrow> (jserror + unit) \<times> world" where
  "on_register req w =
     (Inr (),
      w\<lparr>main_delegates := create (delegatorId req) (main_delegates w),
        main_runtime :=
          emit (Ev_register_reply \<lparr>reply_delegatorId = delegatorId req\<rparr>) (main_runtime w)\<rparr>)"

fun dispatch :: "(uuid \<rightharpoonup> fn) \<Rightarrow> event \<Rightarrow> world \<Rightarrow> (jserror + unit) \<times> world" where
  "dispatch inherited (Ev_register req) w = on_register req w"
| "dispatch inherited (Ev_register_reply req) w = on_delegators (handleRegisterReply req) w"
| "dispatch inherited (Ev_delegate req) w =
     on_delegators (handleDelegateRequest inherited req) w"
| "dispatch inherited (Ev_delegate_reply reply) w = on_delegates (handleDelegateReply reply) w"
| "dispatch inherited (Ev_unregister req) w = on_delegates (handleUnregisterRequest req) w"

text \<open>One microtask: the oldest queued \<^verbatim>\<open>emitter.emit\<close> runs, to its end.\<close>

definition run_microtask :: "(uuid \<rightharpoonup> fn) \<Rightarrow> world \<Rightarrow> (jserror + unit) \<times> world" where
  "run_microtask inherited w =
     (case microtasks (main_runtime w) of
        [] \<Rightarrow> (Inr (), w)
      | e # es \<Rightarrow>
          dispatch inherited e (w\<lparr>main_runtime := (main_runtime w)\<lparr>microtasks := es\<rparr>\<rparr>))"

text \<open>
  What can happen next: a microtask, or code outside the pools (\<^verbatim>\<open>main\<close>, a timer) calling
  a delegate, creating or registering a function, or disposing. Any interleaving is
  allowed, which is more than the runtime allows (it empties the microtask queue before
  the next timer). A throw that nothing catches ends the process: the run stops there.
\<close>

datatype action =
  Microtask
  | Call uuid "val list"
  | Create fn
  | Register uuid
  | Dispose

fun exec :: "(nat \<Rightarrow> uuid) \<Rightarrow> (uuid \<rightharpoonup> fn) \<Rightarrow> action \<Rightarrow> world \<Rightarrow> (jserror + unit) \<times> world" where
  "exec gen inherited Microtask w = run_microtask inherited w"
| "exec gen inherited (Call i as) w = on_delegates (delegate gen i as) w"
| "exec gen inherited (Create f) w = on_delegators (create_fn gen f) w"
| "exec gen inherited (Register i) w = on_delegators (register i) w"
| "exec gen inherited Dispose w = on_delegators dispose w"

fun run :: "(nat \<Rightarrow> uuid) \<Rightarrow> (uuid \<rightharpoonup> fn) \<Rightarrow> action list \<Rightarrow> world \<Rightarrow> world" where
  "run gen inherited [] w = w"
| "run gen inherited (a # acts) w =
     (case exec gen inherited a w of
        (Inl e, w') \<Rightarrow> w'
      | (Inr u, w') \<Rightarrow> run gen inherited acts w')"

definition initial_runtime :: runtime where
  "initial_runtime = \<lparr>heap = [], microtasks = [], drawn = 0\<rparr>"

definition main_start :: "(nat \<Rightarrow> uuid) \<Rightarrow> world" where
  "main_start gen =
     (case new_DelegatorPool gen initial_runtime of
        (rt1, dr) \<Rightarrow>
          \<lparr>main_runtime = rt1, main_delegates = new_DelegatePool, main_delegators = dr\<rparr>)"

section \<open>Properties stated over the model\<close>

text \<open>The reply identifier an event carries, if it is a call request or a call reply.\<close>

fun rid_of :: "event \<Rightarrow> uuid option" where
  "rid_of (Ev_delegate req) = Some (req_rid req)"
| "rid_of (Ev_delegate_reply reply) = Some (rid reply)"
| "rid_of e = None"

text \<open>
  An event has its pending call when it is neither a call request nor a call reply, or
  when \<open>pool\<close> has an entry under its reply identifier and the entry is a Deferred of the
  heap. \<open>pending_first\<close> says so of every event still waiting in the microtask queue.
\<close>

definition has_pending :: "runtime \<Rightarrow> DelegatePool \<Rightarrow> event \<Rightarrow> bool" where
  "has_pending rt dp e =
     (case rid_of e of
        None \<Rightarrow> True
      | Some r \<Rightarrow> (case pool dp r of None \<Rightarrow> False | Some d \<Rightarrow> d < length (heap rt)))"

definition pending_first :: "runtime \<Rightarrow> DelegatePool \<Rightarrow> bool" where
  "pending_first rt dp = (\<forall>e \<in> set (microtasks rt). has_pending rt dp e)"

definition world_pending_first :: "world \<Rightarrow> bool" where
  "world_pending_first w = pending_first (main_runtime w) (main_delegates w)"

text \<open>
  Several calls in a row, before any microtask runs; several replies handled in a row
  by the \<^verbatim>\<open>DelegatePool\<close>; several requests handled in a row by the \<^verbatim>\<open>DelegatorPool\<close>.
  Each stops at the first throw.
\<close>

fun delegate_all ::
  "(nat \<Rightarrow> uuid) \<Rightarrow> uuid \<Rightarrow> val list list \<Rightarrow> runtime \<times> DelegatePool
     \<Rightarrow> (jserror + nat list) \<times> runtime \<times> DelegatePool" where
  "delegate_all gen i [] st = (Inr [], st)"
| "delegate_all gen i (as # ass) st =
     (case delegate gen i as st of
        (Inl e, st') \<Rightarrow> (Inl e, st')
      | (Inr p, st') \<Rightarrow>
          (case delegate_all gen i ass st' of
             (Inl e, st'') \<Rightarrow> (Inl e, st'')
           | (Inr ps, st'') \<Rightarrow> (Inr (p # ps), st'')))"

fun deliver_all ::
  "DelegateReply list \<Rightarrow> runtime \<times> DelegatePool
     \<Rightarrow> (jserror + unit) \<times> runtime \<times> DelegatePool" where
  "deliver_all [] st = (Inr (), st)"
| "deliver_all (r # rs) st =
     (case handleDelegateReply r st of
        (Inl e, st') \<Rightarrow> (Inl e, st')
      | (Inr u, st') \<Rightarrow> deliver_all rs st')"

fun handle_all ::
  "(uuid \<rightharpoonup> fn) \<Rightarrow> DelegateRequest list \<Rightarrow> runtime \<times> DelegatorPool
     \<Rightarrow> (jserror + unit) \<times> runtime \<times> DelegatorPool" where
  "handle_all inherited [] st = (Inr (), st)"
| "handle_all inherited (req # reqs) st =
     (case handleDelegateRequest inherited req st of
        (Inl e, st') \<Rightarrow> (Inl e, st')
      | (Inr u, st') \<Rightarrow> handle_all inherited reqs st')"

section \<open>Example inputs\<close>

definition example_gen :: "nat \<Rightarrow> uuid" where
  "example_gen n = ''uuid-'' @ replicate n (CHR ''x'')"

text \<open>
  A registered function for the examples: on a first argument that is a number it
  returns what \<^verbatim>\<open>(x: number) => 42 + x\<close> of \<^verbatim>\<open>main\<close> returns. The examples apply it to
  numbers only.
\<close>

definition add42 :: fn where
  "add42 as = (case as of VNum x # rest \<Rightarrow> Inr (VNum (42 + x)) | _ \<Rightarrow> Inr VUndefined)"

text \<open>An \<^verbatim>\<open>async\<close> function: what it returns is a promise.\<close>

definition async_fn :: fn where
  "async_fn as = Inr (VPromise 0)"

definition example_delegator :: DelegatorPool where
  "example_delegator = \<lparr>own_id = ''self'', fn_pool = [(''A'', add42), (''B'', async_fn)],
     uponRegister = [''A'' \<mapsto> 1]\<rparr>"

definition example_delegates :: DelegatePool where
  "example_delegates = \<lparr>delegates = {''A''}, pool = [''r1'' \<mapsto> 0]\<rparr>"

definition example_runtime :: runtime where
  "example_runtime = \<lparr>heap = [Pending, Pending], microtasks = [], drawn = 4\<rparr>"

text \<open>
  A run of the program: a function is created and registered, the two microtasks of the
  handshake run, the delegate is called once, and the registry answers.
\<close>

definition example_acts :: "action list" where
  "example_acts =
     [Create add42, Register (example_gen 1), Microtask, Microtask,
      Call (example_gen 1) [VNum 21], Microtask]"

definition example_world :: world where
  "example_world = run example_gen Map.empty example_acts (main_start example_gen)"

text \<open>A state in which the next microtask delivers a request for an identifier that the
  registry does not hold.\<close>

definition ghost_world :: world where
  "ghost_world =
     \<lparr>main_runtime = example_runtime\<lparr>microtasks :=
          [Ev_delegate \<lparr>req_id = ''ghost'', req_rid = ''r1'', req_args = [VNum 1]\<rparr>]\<rparr>,
      main_delegates = example_delegates,
      main_delegators = example_delegator\<rparr>"

section \<open>Lemmas about single calls\<close>

lemma delegate_registered:
  assumes "i \<in> delegates dp"
  shows "delegate gen i as (rt, dp) =
     (Inr (length (heap rt)),
      rt\<lparr>heap := heap rt @ [Pending],
         microtasks := microtasks rt @
           [Ev_delegate \<lparr>req_id = i, req_rid = gen (drawn rt), req_args = as\<rparr>],
         drawn := Suc (drawn rt)\<rparr>,
      dp\<lparr>pool := (pool dp)(gen (drawn rt) \<mapsto> length (heap rt))\<rparr>)"
  using assms by (simp add: delegate_def uuidgen_def new_Deferred_def emit_def)

lemma emit_all:
  "fold (\<lambda>k. emit (f k)) ks rt = rt\<lparr>microtasks := microtasks rt @ map f ks\<rparr>"
  by (induction ks arbitrary: rt) (simp_all add: emit_def)

lemma has_pending_heap_grows:
  "has_pending rt dp e \<Longrightarrow> length (heap rt) \<le> length (heap rt') \<Longrightarrow> pool dp' = pool dp
     \<Longrightarrow> has_pending rt' dp' e"
  by (auto simp add: has_pending_def split: option.splits)

lemma pending_first_runtime:
  assumes "pending_first rt dp"
    and "length (heap rt) \<le> length (heap rt')"
    and "\<forall>e \<in> set (microtasks rt'). e \<in> set (microtasks rt) \<or> has_pending rt' dp e"
  shows "pending_first rt' dp"
  unfolding pending_first_def
proof
  fix e assume "e \<in> set (microtasks rt')"
  with assms(3) consider "e \<in> set (microtasks rt)" | "has_pending rt' dp e" by blast
  then show "has_pending rt' dp e"
  proof cases
    case 1
    then have "has_pending rt dp e" using assms(1) by (simp add: pending_first_def)
    then show ?thesis using assms(2) by (rule has_pending_heap_grows) simp
  next
    case 2
    then show ?thesis .
  qed
qed

lemma pending_first_pool:
  assumes "pending_first rt dp" and "pool dp' = pool dp"
  shows "pending_first rt dp'"
  unfolding pending_first_def
proof
  fix e assume "e \<in> set (microtasks rt)"
  then have "has_pending rt dp e" using assms(1) by (simp add: pending_first_def)
  then show "has_pending rt dp' e" using assms(2) by (rule has_pending_heap_grows [OF _ order_refl])
qed

lemma pending_first_delegate:
  assumes "pending_first rt dp" and "delegate gen i as (rt, dp) = (out, rt', dp')"
  shows "pending_first rt' dp'"
proof (cases "i \<in> delegates dp")
  case False
  then show ?thesis using assms by (simp add: delegate_def)
next
  case True
  let ?new = "Ev_delegate \<lparr>req_id = i, req_rid = gen (drawn rt), req_args = as\<rparr>"
  have rt': "heap rt' = heap rt @ [Pending]" "microtasks rt' = microtasks rt @ [?new]"
    and dp': "pool dp' = (pool dp)(gen (drawn rt) \<mapsto> length (heap rt))"
    using assms(2) by (auto simp add: delegate_registered [OF True])
  have old: "has_pending rt' dp' e" if "e \<in> set (microtasks rt)" for e
  proof -
    have "has_pending rt dp e" using assms(1) that by (simp add: pending_first_def)
    then show ?thesis
      using rt' dp' by (auto simp add: has_pending_def split: option.splits if_splits)
  qed
  have new: "has_pending rt' dp' ?new"
    using rt' dp' by (simp add: has_pending_def)
  show ?thesis using old new rt'(2) by (auto simp add: pending_first_def)
qed

lemma pending_first_handleDelegateReply:
  assumes "pending_first rt dp" and "handleDelegateReply reply (rt, dp) = (out, rt', dp')"
  shows "pending_first rt' dp'"
proof -
  have "dp' = dp" "microtasks rt' = microtasks rt" "length (heap rt') = length (heap rt)"
    using assms(2) by (auto simp add: handleDelegateReply_def Deferred_resolve_def split: option.splits)
  then show ?thesis using pending_first_runtime [OF assms(1), of rt'] by simp
qed

lemma pending_first_handleUnregisterRequest:
  assumes "pending_first rt dp" and "handleUnregisterRequest req (rt, dp) = (out, rt', dp')"
  shows "pending_first rt' dp'"
proof -
  have "rt' = rt" "pool dp' = pool dp"
    using assms(2) by (auto simp add: handleUnregisterRequest_def)
  then show ?thesis using pending_first_pool [OF assms(1)] by simp
qed

lemma pending_first_create:
  "pending_first rt dp \<Longrightarrow> pending_first rt (create i dp)"
  by (rule pending_first_pool) (simp_all add: create_def)

lemma pending_first_handleDelegateRequest:
  assumes "pending_first rt dp"
    and "has_pending rt dp (Ev_delegate req)"
    and "handleDelegateRequest inherited req (rt, dr) = (out, rt', dr')"
  shows "pending_first rt' dp"
proof -
  have "has_pending rt dp (Ev_delegate_reply \<lparr>rid = req_rid req, args = v\<rparr>)" for v
    using assms(2) by (simp add: has_pending_def)
  moreover have "heap rt' = heap rt"
    using assms(3)
    by (auto simp add: handleDelegateRequest_def emit_def split: option.splits sum.splits)
  moreover have "\<forall>e \<in> set (microtasks rt'). e \<in> set (microtasks rt) \<or>
      (\<exists>v. e = Ev_delegate_reply \<lparr>rid = req_rid req, args = v\<rparr>)"
    using assms(3)
    by (auto simp add: handleDelegateRequest_def emit_def split: option.splits sum.splits)
  ultimately show ?thesis
    using pending_first_runtime [OF assms(1), of rt'] has_pending_heap_grows [of rt dp _ rt']
    by (metis order_refl)
qed

lemma pending_first_handleRegisterReply:
  assumes "pending_first rt dp" and "handleRegisterReply req (rt, dr) = (out, rt', dr')"
  shows "pending_first rt' dp"
proof -
  have "microtasks rt' = microtasks rt" "length (heap rt') = length (heap rt)"
    using assms(2) by (auto simp add: handleRegisterReply_def Deferred_resolve_def split: option.splits)
  then show ?thesis using pending_first_runtime [OF assms(1), of rt'] by simp
qed

lemma pending_first_create_fn:
  assumes "pending_first rt dp" and "create_fn gen f (rt, dr) = (out, rt', dr')"
  shows "pending_first rt' dp"
proof -
  have "microtasks rt' = microtasks rt" "heap rt' = heap rt"
    using assms(2) by (auto simp add: create_fn_def uuidgen_def)
  then show ?thesis using pending_first_runtime [OF assms(1), of rt'] by simp
qed

lemma pending_first_register:
  assumes "pending_first rt dp" and "register i (rt, dr) = (out, rt', dr')"
  shows "pending_first rt' dp"
proof -
  have "microtasks rt' = microtasks rt @ [Ev_register \<lparr>senderId = own_id dr, delegatorId = i\<rparr>]"
    "heap rt' = heap rt @ [Pending]"
    using assms(2) by (auto simp add: register_def new_Deferred_def emit_def)
  then show ?thesis
    by (intro pending_first_runtime [OF assms(1)]) (auto simp add: has_pending_def)
qed

lemma pending_first_dispose:
  assumes "pending_first rt dp" and "dispose (rt, dr) = (out, rt', dr')"
  shows "pending_first rt' dp"
proof -
  have "microtasks rt' = microtasks rt @
      map (\<lambda>k. Ev_unregister \<lparr>senderId = own_id dr, delegatorId = k\<rparr>) (map fst (fn_pool dr))"
    "heap rt' = heap rt"
    using assms(2) by (auto simp add: dispose_def emit_all)
  then show ?thesis
    by (intro pending_first_runtime [OF assms(1)]) (auto simp add: has_pending_def)
qed

lemma on_delegates_cases:
  assumes "on_delegates m w = (out, w')"
  obtains o' rt' dp' where "m (main_runtime w, main_delegates w) = (o', rt', dp')"
    and "w' = w\<lparr>main_runtime := rt', main_delegates := dp'\<rparr>"
  using assms by (cases "m (main_runtime w, main_delegates w)") (auto simp add: on_delegates_def)

lemma on_delegators_cases:
  assumes "on_delegators m w = (out, w')"
  obtains o' rt' dr' where "m (main_runtime w, main_delegators w) = (o', rt', dr')"
    and "w' = w\<lparr>main_runtime := rt', main_delegators := dr'\<rparr>"
  using assms by (cases "m (main_runtime w, main_delegators w)") (auto simp add: on_delegators_def)

lemma world_pending_first_dispatch:
  assumes "pending_first rt (main_delegates w)"
    and "microtasks rt = e # es"
    and "main_runtime w = rt\<lparr>microtasks := es\<rparr>"
    and "dispatch inherited e w = (out, w')"
  shows "world_pending_first w'"
proof -
  have head: "has_pending (main_runtime w) (main_delegates w) e"
    using assms(1,2,3) by (auto simp add: pending_first_def has_pending_def split: option.splits)
  have tail: "pending_first (main_runtime w) (main_delegates w)"
    using assms(2,3)
    by (intro pending_first_runtime [OF assms(1)]) simp_all
  show ?thesis
  proof (cases e)
    case (Ev_register req)
    let ?rt = "emit (Ev_register_reply \<lparr>reply_delegatorId = delegatorId req\<rparr>) (main_runtime w)"
    have "pending_first ?rt (create (delegatorId req) (main_delegates w))"
      by (intro pending_first_runtime [OF pending_first_create [OF tail]])
        (auto simp add: emit_def has_pending_def)
    then show ?thesis
      using assms(4) Ev_register by (auto simp add: on_register_def world_pending_first_def)
  next
    case (Ev_register_reply req)
    with assms(4) show ?thesis
      by (auto elim!: on_delegators_cases simp add: world_pending_first_def
          dest: pending_first_handleRegisterReply [OF tail])
  next
    case (Ev_delegate req)
    with assms(4) head show ?thesis
      by (auto elim!: on_delegators_cases simp add: world_pending_first_def
          dest: pending_first_handleDelegateRequest [OF tail])
  next
    case (Ev_delegate_reply reply)
    with assms(4) show ?thesis
      by (auto elim!: on_delegates_cases simp add: world_pending_first_def
          dest: pending_first_handleDelegateReply [OF tail])
  next
    case (Ev_unregister req)
    with assms(4) show ?thesis
      by (auto elim!: on_delegates_cases simp add: world_pending_first_def
          dest: pending_first_handleUnregisterRequest [OF tail])
  qed
qed

lemma world_pending_first_exec:
  assumes "world_pending_first w" and "exec gen inherited a w = (out, w')"
  shows "world_pending_first w'"
proof (cases a)
  case Microtask
  show ?thesis
  proof (cases "microtasks (main_runtime w)")
    case Nil
    then show ?thesis using assms Microtask by (simp add: run_microtask_def)
  next
    case (Cons e es)
    let ?w = "w\<lparr>main_runtime := (main_runtime w)\<lparr>microtasks := es\<rparr>\<rparr>"
    have "dispatch inherited e ?w = (out, w')"
      using assms(2) Microtask Cons by (simp add: run_microtask_def)
    then show ?thesis
      using world_pending_first_dispatch [of "main_runtime w" ?w e es inherited out w'] assms(1) Cons
      by (simp add: world_pending_first_def)
  qed
next
  case (Call i as)
  with assms show ?thesis
    by (auto elim!: on_delegates_cases simp add: world_pending_first_def dest: pending_first_delegate)
next
  case (Create f)
  with assms show ?thesis
    by (auto elim!: on_delegators_cases simp add: world_pending_first_def dest: pending_first_create_fn)
next
  case (Register i)
  with assms show ?thesis
    by (auto elim!: on_delegators_cases simp add: world_pending_first_def dest: pending_first_register)
next
  case Dispose
  with assms show ?thesis
    by (auto elim!: on_delegators_cases simp add: world_pending_first_def dest: pending_first_dispose)
qed

lemma world_pending_first_run:
  "world_pending_first w \<Longrightarrow> world_pending_first (run gen inherited acts w)"
proof (induction acts arbitrary: w)
  case Nil
  then show ?case by simp
next
  case (Cons a acts)
  obtain out w' where step: "exec gen inherited a w = (out, w')"
    by (cases "exec gen inherited a w") auto
  then have "world_pending_first w'" using Cons.prems world_pending_first_exec by blast
  then show ?case using step Cons.IH by (cases out) simp_all
qed

lemma world_pending_first_main_start: "world_pending_first (main_start gen)"
  by (simp add: world_pending_first_def main_start_def new_DelegatorPool_def uuidgen_def
      initial_runtime_def pending_first_def)

section \<open>Lemmas about several calls and several replies\<close>

lemma delegate_all_registered:
  assumes "i \<in> delegates dp"
    and "delegate_all gen i ass (rt, dp) = (out, rt1, dp1)"
  shows "out = Inr [length (heap rt) ..< length (heap rt) + length ass] \<and>
         heap rt1 = heap rt @ replicate (length ass) Pending \<and>
         microtasks rt1 = microtasks rt @
           map (\<lambda>k. Ev_delegate \<lparr>req_id = i, req_rid = gen (drawn rt + k), req_args = ass ! k\<rparr>)
             [0 ..< length ass] \<and>
         drawn rt1 = drawn rt + length ass \<and>
         delegates dp1 = delegates dp \<and>
         (\<forall>r. r \<notin> gen ` {drawn rt ..< drawn rt + length ass} \<longrightarrow> pool dp1 r = pool dp r) \<and>
         (distinct (map gen [drawn rt ..< drawn rt + length ass]) \<longrightarrow>
            (\<forall>k < length ass. pool dp1 (gen (drawn rt + k)) = Some (length (heap rt) + k)))"
  using assms
proof (induction ass arbitrary: rt dp out rt1 dp1)
  case Nil
  then show ?case by simp
next
  case (Cons a ass)
  let ?n = "length (heap rt)" and ?c = "drawn rt"
  let ?rta = "rt\<lparr>heap := heap rt @ [Pending],
         microtasks := microtasks rt @
           [Ev_delegate \<lparr>req_id = i, req_rid = gen (drawn rt), req_args = a\<rparr>],
         drawn := Suc (drawn rt)\<rparr>"
  let ?dpa = "dp\<lparr>pool := (pool dp)(gen (drawn rt) \<mapsto> length (heap rt))\<rparr>"
  obtain out' rt' dp' where rest: "delegate_all gen i ass (?rta, ?dpa) = (out', rt', dp')"
    by (cases "delegate_all gen i ass (?rta, ?dpa)") auto
  have reg: "i \<in> delegates ?dpa" using Cons.prems(1) by simp
  note ih = Cons.IH [OF reg rest]
  from ih have out': "out' = Inr [Suc ?n ..< Suc ?n + length ass]" by simp
  from Cons.prems(2) rest out'
  have eqs: "out = Inr (?n # [Suc ?n ..< Suc ?n + length ass])" "rt1 = rt'" "dp1 = dp'"
    by (simp_all add: delegate_registered [OF Cons.prems(1)])
  have "[?n ..< ?n + length (a # ass)] = ?n # [Suc ?n ..< Suc ?n + length ass]"
    by (simp add: upt_conv_Cons del: upt_Suc)
  then have c1: "out = Inr [?n ..< ?n + length (a # ass)]"
    using eqs(1) by (simp only:)
  have c2: "heap rt1 = heap rt @ replicate (length (a # ass)) Pending"
    using ih eqs by simp
  have "map (\<lambda>k. Ev_delegate \<lparr>req_id = i, req_rid = gen (?c + k), req_args = (a # ass) ! k\<rparr>)
             [0 ..< length (a # ass)]
        = Ev_delegate \<lparr>req_id = i, req_rid = gen ?c, req_args = a\<rparr> #
          map (\<lambda>k. Ev_delegate \<lparr>req_id = i, req_rid = gen (Suc ?c + k), req_args = ass ! k\<rparr>)
             [0 ..< length ass]"
    by (simp add: map_upt_Suc del: upt_Suc)
  then have c3: "microtasks rt1 = microtasks rt @
           map (\<lambda>k. Ev_delegate \<lparr>req_id = i, req_rid = gen (?c + k), req_args = (a # ass) ! k\<rparr>)
             [0 ..< length (a # ass)]"
    using ih eqs by simp
  have c4: "drawn rt1 = drawn rt + length (a # ass)" using ih eqs by simp
  have c5: "delegates dp1 = delegates dp" using ih eqs by simp
  have frame: "\<And>r. r \<notin> gen ` {Suc ?c ..< Suc ?c + length ass} \<Longrightarrow> pool dp1 r = pool ?dpa r"
    using ih eqs by simp
  have c6: "\<forall>r. r \<notin> gen ` {?c ..< ?c + length (a # ass)} \<longrightarrow> pool dp1 r = pool dp r"
  proof (intro allI impI)
    fix r assume r: "r \<notin> gen ` {?c ..< ?c + length (a # ass)}"
    then have "r \<notin> gen ` {Suc ?c ..< Suc ?c + length ass}" and "r \<noteq> gen ?c"
      by auto
    then show "pool dp1 r = pool dp r" using frame by simp
  qed
  have c7: "distinct (map gen [?c ..< ?c + length (a # ass)]) \<longrightarrow>
            (\<forall>k < length (a # ass). pool dp1 (gen (?c + k)) = Some (?n + k))"
  proof (intro allI impI)
    fix k assume d: "distinct (map gen [?c ..< ?c + length (a # ass)])"
      and k: "k < length (a # ass)"
    have "[?c ..< ?c + length (a # ass)] = ?c # [Suc ?c ..< Suc ?c + length ass]"
      by (simp add: upt_conv_Cons del: upt_Suc)
    with d have "distinct (map gen (?c # [Suc ?c ..< Suc ?c + length ass]))"
      by (simp only:)
    then have d': "gen ?c \<notin> gen ` {Suc ?c ..< Suc ?c + length ass}"
      and d'': "distinct (map gen [Suc ?c ..< Suc ?c + length ass])"
      by (simp_all del: upt_Suc)
    show "pool dp1 (gen (?c + k)) = Some (?n + k)"
    proof (cases k)
      case 0
      then show ?thesis using frame [OF d'] by simp
    next
      case (Suc j)
      then have "j < length ass" using k by simp
      then have "pool dp1 (gen (Suc ?c + j)) = Some (Suc ?n + j)"
        using ih d'' eqs by simp
      then show ?thesis using Suc by simp
    qed
  qed
  from c1 c2 c3 c4 c5 c6 c7 show ?case by blast
qed

lemma deliver_all_resolves:
  assumes "\<forall>k<N. pool dp (R k) = Some (D k)"
    and "\<forall>k<N. D k < length (heap rt)"
    and "\<forall>j<N. \<forall>k<N. D j = D k \<longrightarrow> j = k"
    and "\<forall>r \<in> set rs. \<exists>k<N. rid r = R k \<and> args r = V k"
    and "\<forall>k<N. heap rt ! D k = Pending \<or> heap rt ! D k = Resolved (V k)"
    and "deliver_all rs (rt, dp) = (out, rt', dp')"
  shows "out = Inr () \<and> dp' = dp \<and>
         (\<forall>k<N. heap rt ! D k = Resolved (V k) \<longrightarrow> heap rt' ! D k = Resolved (V k)) \<and>
         (\<forall>k<N. (\<exists>r \<in> set rs. rid r = R k) \<longrightarrow> heap rt' ! D k = Resolved (V k))"
  using assms
proof (induction rs arbitrary: rt)
  case Nil
  then show ?case by simp
next
  case (Cons r rs)
  from Cons.prems(4) obtain k0 where k0: "k0 < N" "rid r = R k0" "args r = V k0"
    by auto
  let ?rtm = "Deferred_resolve (D k0) (V k0) rt"
  have hit: "pool dp (rid r) = Some (D k0)" using Cons.prems(1) k0 by simp
  have step: "handleDelegateReply r (rt, dp) = (Inr (), ?rtm, dp)"
    using hit k0 by (simp add: handleDelegateReply_def)
  have len: "length (heap ?rtm) = length (heap rt)"
    by (simp add: Deferred_resolve_def)
  have at_k0: "heap ?rtm ! D k0 = Resolved (V k0)"
    using Cons.prems(2,5) k0(1) by (auto simp add: Deferred_resolve_def)
  have other: "heap ?rtm ! D k = heap rt ! D k" if "k < N" "k \<noteq> k0" for k
  proof -
    have "D k0 \<noteq> D k" using Cons.prems(3) k0(1) that by blast
    then show ?thesis by (simp add: Deferred_resolve_def)
  qed
  have keep: "\<And>k. k < N \<Longrightarrow> heap rt ! D k = Resolved (V k) \<Longrightarrow> heap ?rtm ! D k = Resolved (V k)"
    using at_k0 other by metis
  have inv: "\<forall>k<N. heap ?rtm ! D k = Pending \<or> heap ?rtm ! D k = Resolved (V k)"
    using at_k0 other Cons.prems(5) by metis
  have rest: "deliver_all rs (?rtm, dp) = (out, rt', dp')"
    using Cons.prems(6) step by simp
  have p2: "\<forall>k<N. D k < length (heap ?rtm)" using Cons.prems(2) len by simp
  have p4: "\<forall>r \<in> set rs. \<exists>k<N. rid r = R k \<and> args r = V k" using Cons.prems(4) by simp
  note ih = Cons.IH [OF Cons.prems(1) p2 Cons.prems(3) p4 inv rest]
  have same: "\<And>k. k < N \<Longrightarrow> R k = R k0 \<Longrightarrow> k = k0"
    using Cons.prems(1,3) k0(1) by (metis option.inject)
  show ?case
  proof (intro conjI allI impI)
    show "out = Inr ()" "dp' = dp" using ih by simp_all
  next
    fix k assume "k < N" "heap rt ! D k = Resolved (V k)"
    then show "heap rt' ! D k = Resolved (V k)" using keep ih by blast
  next
    fix k assume k: "k < N" and ex: "\<exists>x \<in> set (r # rs). rid x = R k"
    show "heap rt' ! D k = Resolved (V k)"
    proof (cases "rid r = R k")
      case True
      then have "k = k0" using same k k0 by simp
      then show ?thesis using at_k0 ih k by blast
    next
      case False
      then have "\<exists>x \<in> set rs. rid x = R k" using ex by auto
      then show ?thesis using ih k by blast
    qed
  qed
qed

lemma handle_all_replies:
  assumes "list_all2 (\<lambda>req v. map_of (fn_pool dr) (req_id req) = Some h \<and> h (req_args req) = Inr v) reqs vs"
  shows "handle_all inherited reqs (rt, dr) =
     (Inr (),
      rt\<lparr>microtasks := microtasks rt @
         map2 (\<lambda>req v. Ev_delegate_reply \<lparr>rid = req_rid req, args = v\<rparr>) reqs vs\<rparr>,
      dr)"
  using assms
proof (induction reqs vs arbitrary: rt rule: list_all2_induct)
  case Nil
  then show ?case by simp
next
  case (Cons req reqs v vs)
  have "handleDelegateRequest inherited req (rt, dr) =
      (Inr (), rt\<lparr>microtasks := microtasks rt @ [Ev_delegate_reply \<lparr>rid = req_rid req, args = v\<rparr>]\<rparr>, dr)"
    using Cons.hyps(1) by (simp add: handleDelegateRequest_def lookup_fn_def emit_def)
  then show ?case using Cons.IH by simp
qed

lemma handle_all_indexed:
  assumes "map_of (fn_pool dr) i = Some h"
    and "length res = n"
    and "\<forall>k<n. h (a k) = Inr (res ! k)"
  shows "handle_all inherited (map (\<lambda>k. \<lparr>req_id = i, req_rid = r k, req_args = a k\<rparr>) [0..<n]) (rt, dr) =
     (Inr (),
      rt\<lparr>microtasks := microtasks rt @
         map (\<lambda>k. Ev_delegate_reply \<lparr>rid = r k, args = res ! k\<rparr>) [0..<n]\<rparr>,
      dr)"
proof -
  let ?reqs = "map (\<lambda>k. \<lparr>req_id = i, req_rid = r k, req_args = a k\<rparr>) [0..<n]"
  have "list_all2 (\<lambda>req v. map_of (fn_pool dr) (req_id req) = Some h \<and> h (req_args req) = Inr v) ?reqs res"
    using assms by (simp add: list_all2_conv_all_nth)
  from handle_all_replies [OF this]
  have "handle_all inherited ?reqs (rt, dr) =
     (Inr (),
      rt\<lparr>microtasks := microtasks rt @
         map2 (\<lambda>req v. Ev_delegate_reply \<lparr>rid = req_rid req, args = v\<rparr>) ?reqs res\<rparr>,
      dr)" .
  moreover have "map2 (\<lambda>req v. Ev_delegate_reply \<lparr>rid = req_rid req, args = v\<rparr>) ?reqs res
      = map (\<lambda>k. Ev_delegate_reply \<lparr>rid = r k, args = res ! k\<rparr>) [0..<n]"
    using assms(2) by (intro nth_equalityI) simp_all
  ultimately show ?thesis by simp
qed

section \<open>The example run, evaluated\<close>

lemma example_world_evaluated:
  "example_world =
     \<lparr>main_runtime =
        \<lparr>heap = [Resolved VUndefined, Pending],
         microtasks = [Ev_delegate_reply \<lparr>rid = example_gen 2, args = VNum 63\<rparr>],
         drawn = 3\<rparr>,
      main_delegates =
        \<lparr>delegates = {example_gen 1}, pool = [example_gen 2 \<mapsto> 1]\<rparr>,
      main_delegators =
        \<lparr>own_id = example_gen 0, fn_pool = [(example_gen 1, add42)],
         uponRegister = [example_gen 1 \<mapsto> 0]\<rparr>\<rparr>"
  by (simp add: example_world_def example_acts_def main_start_def new_DelegatorPool_def
      new_DelegatePool_def initial_runtime_def uuidgen_def run_microtask_def
      on_delegators_def on_delegates_def on_register_def create_fn_def register_def
      new_Deferred_def emit_def create_def delegate_def handleRegisterReply_def
      handleDelegateRequest_def lookup_fn_def Deferred_resolve_def add42_def
      numeral_2_eq_2 numeral_3_eq_3)

section \<open>The claims\<close>

subsection \<open>C1: reply correlation\<close>

text \<open>
  Claim C1. A registered identifier \<open>i\<close> is called \<open>length ass\<close> times in a row, call \<open>k\<close>
  with the arguments \<open>ass ! k\<close>, before any microtask runs; the identifiers \<^verbatim>\<open>uuidgen\<close>
  returns for these calls are distinct. The calls queue the requests \<open>reqs\<close>: request \<open>k\<close>
  carries the arguments of call \<open>k\<close> and its own reply identifier, and call \<open>k\<close> returns
  the promise of a new Deferred. A registry that holds the function \<open>h\<close> under \<open>i\<close> handles
  the requests and queues the replies \<open>emitted\<close>: reply \<open>k\<close> carries the reply identifier
  of request \<open>k\<close> and \<open>res ! k\<close>, what \<open>h\<close> returns on the arguments of call \<open>k\<close>. These
  replies reach the \<^verbatim>\<open>DelegatePool\<close> in any order, each at least once. Then no reply
  throws, and the promise of call \<open>k\<close> is resolved with \<open>res ! k\<close>, the result of its own
  request, for every \<open>k\<close>.
\<close>

theorem reply_correlation_exact:
  assumes "i \<in> delegates dp"
    and "distinct (map gen [drawn rt ..< drawn rt + length ass])"
    and "map_of (fn_pool dr) i = Some h"
    and "length res = length ass"
    and "\<forall>k < length ass. h (ass ! k) = Inr (res ! k)"
    and "delegate_all gen i ass (rt, dp) = (out1, rt1, dp1)"
    and "microtasks rt1 = microtasks rt @ map Ev_delegate reqs"
    and "handle_all inherited reqs (rtr, dr) = (out3, rtr', dr')"
    and "microtasks rtr' = microtasks rtr @ map Ev_delegate_reply emitted"
    and "set replies = set emitted"
    and "deliver_all replies (rt1, dp1) = (out2, rt2, dp2)"
  shows "out1 = Inr [length (heap rt) ..< length (heap rt) + length ass] \<and>
         reqs = map (\<lambda>k. \<lparr>req_id = i, req_rid = gen (drawn rt + k), req_args = ass ! k\<rparr>)
                  [0 ..< length ass] \<and>
         out3 = Inr () \<and>
         emitted = map (\<lambda>k. \<lparr>rid = gen (drawn rt + k), args = res ! k\<rparr>) [0 ..< length ass] \<and>
         out2 = Inr () \<and>
         (\<forall>k < length ass. heap rt2 ! (length (heap rt) + k) = Resolved (res ! k))"
proof -
  let ?N = "length ass" and ?n = "length (heap rt)"
  let ?req = "\<lambda>k. \<lparr>req_id = i, req_rid = gen (drawn rt + k), req_args = ass ! k\<rparr>"
  let ?reply = "\<lambda>k. \<lparr>rid = gen (drawn rt + k), args = res ! k\<rparr>"
  note calls = delegate_all_registered [OF assms(1) assms(6)]
  have "map Ev_delegate reqs = map Ev_delegate (map ?req [0 ..< ?N])"
    using calls assms(7) by (simp add: comp_def)
  moreover have "inj Ev_delegate" by (simp add: inj_on_def)
  ultimately have reqs: "reqs = map ?req [0 ..< ?N]"
    by (simp only: inj_map_eq_map)
  have served: "handle_all inherited reqs (rtr, dr) =
      (Inr (), rtr\<lparr>microtasks := microtasks rtr @ map (\<lambda>k. Ev_delegate_reply (?reply k)) [0 ..< ?N]\<rparr>, dr)"
    unfolding reqs
    using handle_all_indexed [OF assms(3) assms(4), of "\<lambda>k. ass ! k" inherited "\<lambda>k. gen (drawn rt + k)" rtr]
      assms(5) by simp
  then have out3: "out3 = Inr ()"
    and "map Ev_delegate_reply emitted = map Ev_delegate_reply (map ?reply [0 ..< ?N])"
    using assms(8,9) by (auto simp add: comp_def)
  moreover have "inj Ev_delegate_reply" by (simp add: inj_on_def)
  ultimately have emitted: "emitted = map ?reply [0 ..< ?N]"
    by (simp only: inj_map_eq_map)
  have a1: "\<forall>k<?N. pool dp1 (gen (drawn rt + k)) = Some (?n + k)"
    using calls assms(2) by blast
  have a2: "\<forall>k<?N. ?n + k < length (heap rt1)" using calls by simp
  have a3: "\<forall>j<?N. \<forall>k<?N. ?n + j = ?n + k \<longrightarrow> j = k" by simp
  have a4: "\<forall>r \<in> set replies. \<exists>k<?N. rid r = gen (drawn rt + k) \<and> args r = res ! k"
    using assms(10) emitted by auto
  have a5: "\<forall>k<?N. heap rt1 ! (?n + k) = Pending \<or> heap rt1 ! (?n + k) = Resolved (res ! k)"
    using calls by (simp add: nth_append)
  note d = deliver_all_resolves [where R = "\<lambda>k. gen (drawn rt + k)" and D = "\<lambda>k. ?n + k"
      and V = "\<lambda>k. res ! k", OF a1 a2 a3 a4 a5 assms(11)]
  have all: "\<forall>k<?N. \<exists>r \<in> set replies. rid r = gen (drawn rt + k)"
    using assms(10) emitted by force
  show ?thesis using calls reqs out3 emitted d all by blast
qed

text \<open>
  Two calls with the arguments 1 and 2; the reply to the second call arrives first.
  The first promise is resolved with 43 and the second with 44.
\<close>

theorem reply_correlation_exact_witness:
  "''A'' \<in> delegates (create ''A'' new_DelegatePool) \<and>
   distinct (map example_gen [0 ..< 2]) \<and>
   map_of (fn_pool example_delegator) ''A'' = Some add42 \<and>
   add42 [VNum 1] = Inr (VNum 43) \<and> add42 [VNum 2] = Inr (VNum 44) \<and>
   fst (delegate_all example_gen ''A'' [[VNum 1], [VNum 2]]
          (initial_runtime, create ''A'' new_DelegatePool)) = Inr [0, 1] \<and>
   microtasks (fst (snd (delegate_all example_gen ''A'' [[VNum 1], [VNum 2]]
          (initial_runtime, create ''A'' new_DelegatePool))))
     = [Ev_delegate \<lparr>req_id = ''A'', req_rid = example_gen 0, req_args = [VNum 1]\<rparr>,
        Ev_delegate \<lparr>req_id = ''A'', req_rid = example_gen 1, req_args = [VNum 2]\<rparr>] \<and>
   microtasks (fst (snd (handle_all Map.empty
       [\<lparr>req_id = ''A'', req_rid = example_gen 0, req_args = [VNum 1]\<rparr>,
        \<lparr>req_id = ''A'', req_rid = example_gen 1, req_args = [VNum 2]\<rparr>]
       (example_runtime, example_delegator))))
     = [Ev_delegate_reply \<lparr>rid = example_gen 0, args = VNum 43\<rparr>,
        Ev_delegate_reply \<lparr>rid = example_gen 1, args = VNum 44\<rparr>] \<and>
   heap (fst (snd (deliver_all
       [\<lparr>rid = example_gen 1, args = VNum 44\<rparr>, \<lparr>rid = example_gen 0, args = VNum 43\<rparr>]
       (snd (delegate_all example_gen ''A'' [[VNum 1], [VNum 2]]
          (initial_runtime, create ''A'' new_DelegatePool)))))) ! 0
     = Resolved (VNum 43) \<and>
   heap (fst (snd (deliver_all
       [\<lparr>rid = example_gen 1, args = VNum 44\<rparr>, \<lparr>rid = example_gen 0, args = VNum 43\<rparr>]
       (snd (delegate_all example_gen ''A'' [[VNum 1], [VNum 2]]
          (initial_runtime, create ''A'' new_DelegatePool)))))) ! 1
     = Resolved (VNum 44)"
proof -
  let ?dp = "create ''A'' new_DelegatePool"
  let ?ass = "[[VNum 1], [VNum 2]]"
  let ?res = "[VNum 43, VNum 44]"
  let ?reqs = "[\<lparr>req_id = ''A'', req_rid = example_gen 0, req_args = [VNum 1]\<rparr>,
                \<lparr>req_id = ''A'', req_rid = example_gen 1, req_args = [VNum 2]\<rparr>]"
  let ?emitted = "[\<lparr>rid = example_gen 0, args = VNum 43\<rparr>, \<lparr>rid = example_gen 1, args = VNum 44\<rparr>]"
  let ?replies = "[\<lparr>rid = example_gen 1, args = VNum 44\<rparr>, \<lparr>rid = example_gen 0, args = VNum 43\<rparr>]"
  let ?c = "delegate_all example_gen ''A'' ?ass (initial_runtime, ?dp)"
  let ?s = "handle_all Map.empty ?reqs (example_runtime, example_delegator)"
  let ?d = "deliver_all ?replies (snd ?c)"
  have h0: "heap initial_runtime = []" "drawn initial_runtime = 0" "microtasks initial_runtime = []"
    by (simp_all add: initial_runtime_def)
  have h1: "''A'' \<in> delegates ?dp" by (simp add: create_def)
  have h2: "distinct (map example_gen [drawn initial_runtime ..< drawn initial_runtime + length ?ass])"
    by (simp add: h0 example_gen_def)
  have h3: "map_of (fn_pool example_delegator) ''A'' = Some add42"
    by (simp add: example_delegator_def)
  have h4: "length ?res = length ?ass" by simp
  have h5: "\<forall>k < length ?ass. add42 (?ass ! k) = Inr (?res ! k)"
    by (simp add: add42_def less_Suc_eq)
  have h6: "?c = (fst ?c, fst (snd ?c), snd (snd ?c))" by simp
  have h7: "microtasks (fst (snd ?c)) = microtasks initial_runtime @ map Ev_delegate ?reqs"
    by (simp add: h0 delegate_registered create_def)
  have h8: "?s = (fst ?s, fst (snd ?s), snd (snd ?s))" by simp
  have h9: "microtasks (fst (snd ?s)) = microtasks example_runtime @ map Ev_delegate_reply ?emitted"
    by (simp add: handleDelegateRequest_def lookup_fn_def example_delegator_def emit_def
        add42_def example_runtime_def)
  have h10: "set ?replies = set ?emitted" by auto
  have h11: "deliver_all ?replies (fst (snd ?c), snd (snd ?c)) = (fst ?d, fst (snd ?d), snd (snd ?d))"
    by simp
  note t = reply_correlation_exact [OF h1 h2 h3 h4 h5 h6 h7 h8 h9 h10 h11]
  from t have "fst ?c = Inr [0, 1]"
    and r: "\<forall>k < 2. heap (fst (snd ?d)) ! k = Resolved (?res ! k)"
    unfolding h0 by simp_all
  moreover from r have "heap (fst (snd ?d)) ! 0 = Resolved (VNum 43)"
    and "heap (fst (snd ?d)) ! 1 = Resolved (VNum 44)"
    by simp_all
  moreover have "distinct (map example_gen [0 ..< 2])"
    by (simp add: example_gen_def numeral_2_eq_2)
  moreover have "add42 [VNum 1] = Inr (VNum 43)" "add42 [VNum 2] = Inr (VNum 44)"
    by (simp_all add: add42_def)
  moreover have "microtasks (fst (snd ?c)) = map Ev_delegate ?reqs"
    using h7 h0 by simp
  moreover have "microtasks (fst (snd ?s)) = map Ev_delegate_reply ?emitted"
    using h9 by (simp add: example_runtime_def)
  ultimately show ?thesis using h1 h3 by simp
qed

subsection \<open>C2: calling an unregistered identifier\<close>

text \<open>
  Claim C2. When \<open>i\<close> is not in \<open>delegates\<close>, \<open>delegate\<close> throws the
  \<^verbatim>\<open>Unregistered delegate\<close> error at once, and the runtime and the pool are what they were:
  no event has been queued, \<^verbatim>\<open>uuidgen\<close> has not been called, no Deferred has been created
  and \<open>pool\<close> has no new entry.
\<close>

theorem delegate_unregistered_fails:
  assumes "i \<notin> delegates dp"
    and "delegate gen i as (rt, dp) = (out, rt', dp')"
  shows "out = Inl (UnregisteredDelegate i) \<and>
         microtasks rt' = microtasks rt \<and> drawn rt' = drawn rt \<and> heap rt' = heap rt \<and>
         pool dp' = pool dp \<and> rt' = rt \<and> dp' = dp"
  using assms by (simp add: delegate_def)

theorem delegate_unregistered_fails_witness:
  "''A'' \<notin> delegates new_DelegatePool \<and>
   delegate example_gen ''A'' [VNum 21] (initial_runtime, new_DelegatePool)
     = (Inl (UnregisteredDelegate ''A''), initial_runtime, new_DelegatePool)"
proof -
  have h: "''A'' \<notin> delegates new_DelegatePool" by (simp add: new_DelegatePool_def)
  obtain out rt' dp' where
    c: "delegate example_gen ''A'' [VNum 21] (initial_runtime, new_DelegatePool) = (out, rt', dp')"
    by (cases "delegate example_gen ''A'' [VNum 21] (initial_runtime, new_DelegatePool)") auto
  from delegate_unregistered_fails [OF h c] c h show ?thesis by simp
qed

subsection \<open>C3: a call request for a function the registry does not have\<close>

text \<open>
  The claim says that the registry answers such a request with a reply that carries an
  error marker. It does not: \<^verbatim>\<open>this.pool[req.id]\<close> is \<^verbatim>\<open>undefined\<close>, reading \<^verbatim>\<open>apply\<close> of it
  throws a \<^verbatim>\<open>TypeError\<close>, and no reply is queued. The identifier \<^verbatim>\<open>ghost\<close> is not a member
  of \<^verbatim>\<open>Object.prototype\<close> either.
\<close>

theorem unknown_function_reply_counterexample:
  "map_of (fn_pool example_delegator) ''ghost'' = None \<and>
   handleDelegateRequest Map.empty \<lparr>req_id = ''ghost'', req_rid = ''r1'', req_args = []\<rparr>
       (example_runtime, example_delegator)
     = (Inl TypeError, example_runtime, example_delegator) \<and>
   microtasks example_runtime = []"
  by (simp add: handleDelegateRequest_def lookup_fn_def example_delegator_def example_runtime_def)

text \<open>
  Claim C3, amended. For a call request whose identifier has no function in \<open>fn_pool\<close>
  (and names no inherited member), \<open>handleDelegateRequest\<close> throws a \<^verbatim>\<open>TypeError\<close> and
  changes nothing: no reply is queued and every Deferred is as it was, so the caller's
  promise stays pending. In the program the throw leaves the microtask uncaught: the
  request is gone from the queue and the run ends there.
\<close>

theorem unknown_function_throws:
  assumes "microtasks (main_runtime w) = Ev_delegate req # es"
    and "map_of (fn_pool (main_delegators w)) (req_id req) = None"
    and "inherited (req_id req) = None"
  shows "handleDelegateRequest inherited req (rt, main_delegators w)
           = (Inl TypeError, rt, main_delegators w) \<and>
         run_microtask inherited w
           = (Inl TypeError, w\<lparr>main_runtime := (main_runtime w)\<lparr>microtasks := es\<rparr>\<rparr>) \<and>
         run gen inherited (Microtask # acts) w
           = w\<lparr>main_runtime := (main_runtime w)\<lparr>microtasks := es\<rparr>\<rparr>"
  using assms
  by (simp add: handleDelegateRequest_def lookup_fn_def run_microtask_def on_delegators_def)

theorem unknown_function_throws_witness:
  "microtasks (main_runtime ghost_world)
     = [Ev_delegate \<lparr>req_id = ''ghost'', req_rid = ''r1'', req_args = [VNum 1]\<rparr>] \<and>
   map_of (fn_pool (main_delegators ghost_world)) ''ghost'' = None \<and>
   run_microtask Map.empty ghost_world
     = (Inl TypeError, ghost_world\<lparr>main_runtime := example_runtime\<rparr>) \<and>
   run example_gen Map.empty [Microtask, Microtask] ghost_world
     = ghost_world\<lparr>main_runtime := example_runtime\<rparr> \<and>
   heap example_runtime ! 0 = Pending \<and> microtasks example_runtime = []"
proof -
  let ?req = "\<lparr>req_id = ''ghost'', req_rid = ''r1'', req_args = [VNum 1]\<rparr>"
  have h1: "microtasks (main_runtime ghost_world) = Ev_delegate ?req # []"
    by (simp add: ghost_world_def)
  have h2: "map_of (fn_pool (main_delegators ghost_world)) (req_id ?req) = None"
    by (simp add: ghost_world_def example_delegator_def)
  have h3: "Map.empty (req_id ?req) = (None :: fn option)" by simp
  have e: "ghost_world\<lparr>main_runtime := (main_runtime ghost_world)\<lparr>microtasks := []\<rparr>\<rparr>
      = ghost_world\<lparr>main_runtime := example_runtime\<rparr>"
    by (simp add: ghost_world_def example_runtime_def)
  from unknown_function_throws [OF h1 h2 h3, of example_runtime example_gen "[Microtask]"] h1 h2
  show ?thesis unfolding e by (simp add: example_runtime_def)
qed

subsection \<open>C4: a reply that matches no pending call\<close>

text \<open>
  The claim says that such a reply raises no error. It does: \<^verbatim>\<open>this.pool[reply.rid]\<close> is
  \<^verbatim>\<open>undefined\<close> and reading \<^verbatim>\<open>resolve\<close> of it throws a \<^verbatim>\<open>TypeError\<close>.
\<close>

theorem stale_reply_raises_counterexample:
  "pool example_delegates ''stale'' = None \<and>
   fst (handleDelegateReply \<lparr>rid = ''stale'', args = VNum 1\<rparr> (example_runtime, example_delegates))
     = Inl TypeError"
  by (simp add: handleDelegateReply_def example_delegates_def)

text \<open>
  Claim C4, amended. For a reply whose identifier has no entry in \<open>pool\<close>,
  \<open>handleDelegateReply\<close> throws a \<^verbatim>\<open>TypeError\<close> and changes nothing: the pool, the set of
  delegates and every Deferred are as before.
\<close>

theorem stale_reply_throws_unchanged:
  assumes "pool dp (rid reply) = None"
    and "handleDelegateReply reply (rt, dp) = (out, rt', dp')"
  shows "out = Inl TypeError \<and> pool dp' = pool dp \<and> delegates dp' = delegates dp \<and>
         heap rt' = heap rt \<and> rt' = rt \<and> dp' = dp"
  using assms by (simp add: handleDelegateReply_def)

theorem stale_reply_throws_unchanged_witness:
  "pool example_delegates ''stale'' = None \<and>
   handleDelegateReply \<lparr>rid = ''stale'', args = VNum 1\<rparr> (example_runtime, example_delegates)
     = (Inl TypeError, example_runtime, example_delegates)"
proof -
  let ?reply = "\<lparr>rid = ''stale'', args = VNum 1\<rparr>"
  have h: "pool example_delegates (rid ?reply) = None" by (simp add: example_delegates_def)
  obtain out rt' dp' where
    c: "handleDelegateReply ?reply (example_runtime, example_delegates) = (out, rt', dp')"
    by (cases "handleDelegateReply ?reply (example_runtime, example_delegates)") auto
  from stale_reply_throws_unchanged [OF h c] c h show ?thesis by simp
qed

subsection \<open>C5: a reply that matches a pending call\<close>

text \<open>
  The claim says that the entry is removed from the pending map. It is not: after the
  reply has resolved the Deferred, \<open>pool\<close> still has the entry. Nothing in the class
  removes an entry of \<open>pool\<close>.
\<close>

theorem reply_keeps_entry_counterexample:
  "pool example_delegates ''r1'' = Some 0 \<and>
   handleDelegateReply \<lparr>rid = ''r1'', args = VNum 63\<rparr> (example_runtime, example_delegates)
     = (Inr (), example_runtime\<lparr>heap := [Resolved (VNum 63), Pending]\<rparr>, example_delegates) \<and>
   pool (snd (snd (handleDelegateReply \<lparr>rid = ''r1'', args = VNum 63\<rparr>
                     (example_runtime, example_delegates)))) ''r1''
     = Some 0"
  by (simp add: handleDelegateReply_def example_delegates_def example_runtime_def
      Deferred_resolve_def)

text \<open>
  Claim C5, amended. For a reply whose identifier has the entry \<open>d\<close> in \<open>pool\<close>,
  \<open>handleDelegateReply\<close> calls \<^verbatim>\<open>resolve\<close> of that Deferred with the reply's \<^verbatim>\<open>args\<close>: a
  pending promise becomes resolved with them (a promise resolved before is not changed).
  The pool is left as it is: the entry is still there afterwards.
\<close>

theorem reply_resolves_and_keeps_entry:
  assumes "pool dp (rid reply) = Some d"
    and "handleDelegateReply reply (rt, dp) = (out, rt', dp')"
  shows "out = Inr () \<and> dp' = dp \<and> pool dp' (rid reply) = Some d \<and>
         rt' = Deferred_resolve d (args reply) rt \<and>
         (d < length (heap rt) \<and> heap rt ! d = Pending \<longrightarrow>
            heap rt' = (heap rt)[d := Resolved (args reply)] \<and>
            heap rt' ! d = Resolved (args reply)) \<and>
         (d < length (heap rt) \<and> heap rt ! d \<noteq> Pending \<longrightarrow> heap rt' = heap rt) \<and>
         microtasks rt' = microtasks rt \<and> drawn rt' = drawn rt"
  using assms by (auto simp add: handleDelegateReply_def Deferred_resolve_def)

theorem reply_resolves_and_keeps_entry_witness:
  "pool example_delegates ''r1'' = Some 0 \<and>
   0 < length (heap example_runtime) \<and> heap example_runtime ! 0 = Pending \<and>
   fst (handleDelegateReply \<lparr>rid = ''r1'', args = VNum 63\<rparr> (example_runtime, example_delegates))
     = Inr () \<and>
   heap (fst (snd (handleDelegateReply \<lparr>rid = ''r1'', args = VNum 63\<rparr>
                     (example_runtime, example_delegates)))) ! 0
     = Resolved (VNum 63) \<and>
   pool (snd (snd (handleDelegateReply \<lparr>rid = ''r1'', args = VNum 63\<rparr>
                     (example_runtime, example_delegates)))) ''r1''
     = Some 0"
proof -
  let ?reply = "\<lparr>rid = ''r1'', args = VNum 63\<rparr>"
  let ?c = "handleDelegateReply ?reply (example_runtime, example_delegates)"
  have h: "pool example_delegates (rid ?reply) = Some 0" by (simp add: example_delegates_def)
  have c: "?c = (fst ?c, fst (snd ?c), snd (snd ?c))" by simp
  have p: "0 < length (heap example_runtime)" "heap example_runtime ! 0 = Pending"
    by (simp_all add: example_runtime_def)
  from reply_resolves_and_keeps_entry [OF h c] p h show ?thesis
    by (simp add: Deferred_resolve_def example_runtime_def)
qed

subsection \<open>C6: dispose\<close>

text \<open>
  The claim says that \<open>dispose\<close> clears the function map, so that a later request for a
  function it held is not executed. It does neither: after \<open>dispose\<close> the two functions
  are still in \<open>fn_pool\<close>, and a request for the first one is executed and answered.
\<close>

theorem dispose_clears_counterexample:
  "dispose (example_runtime, example_delegator)
     = (Inr (),
        example_runtime\<lparr>microtasks :=
          [Ev_unregister \<lparr>senderId = ''self'', delegatorId = ''A''\<rparr>,
           Ev_unregister \<lparr>senderId = ''self'', delegatorId = ''B''\<rparr>]\<rparr>,
        example_delegator) \<and>
   map fst (fn_pool example_delegator) = [''A'', ''B''] \<and>
   handleDelegateRequest Map.empty \<lparr>req_id = ''A'', req_rid = ''r1'', req_args = [VNum 21]\<rparr>
       (snd (dispose (example_runtime, example_delegator)))
     = (Inr (),
        example_runtime\<lparr>microtasks :=
          [Ev_unregister \<lparr>senderId = ''self'', delegatorId = ''A''\<rparr>,
           Ev_unregister \<lparr>senderId = ''self'', delegatorId = ''B''\<rparr>,
           Ev_delegate_reply \<lparr>rid = ''r1'', args = VNum 63\<rparr>]\<rparr>,
        example_delegator)"
  by (simp add: dispose_def handleDelegateRequest_def lookup_fn_def example_delegator_def
      example_runtime_def emit_def add42_def)

text \<open>
  Claim C6, amended. \<open>dispose\<close> queues one \<^verbatim>\<open>unregister\<close> event, with the identifier and the
  registry's own id as sender, for every identifier in \<open>fn_pool\<close>, in the order of
  \<^verbatim>\<open>Object.keys\<close>, and leaves the registry as it is: \<open>fn_pool\<close> keeps every function. A call
  request that the registry receives later for an identifier it holds is still executed
  and answered.
\<close>

theorem dispose_notifies_and_keeps_functions:
  assumes "dispose (rt, dr) = (out, rt', dr')"
  shows "out = Inr () \<and>
         microtasks rt' = microtasks rt @
           map (\<lambda>k. Ev_unregister \<lparr>senderId = own_id dr, delegatorId = k\<rparr>) (map fst (fn_pool dr)) \<and>
         heap rt' = heap rt \<and> drawn rt' = drawn rt \<and> dr' = dr \<and> fn_pool dr' = fn_pool dr \<and>
         (\<forall>req f v rt2. map_of (fn_pool dr) (req_id req) = Some f \<and> f (req_args req) = Inr v \<longrightarrow>
            handleDelegateRequest inherited req (rt2, dr')
              = (Inr (), emit (Ev_delegate_reply \<lparr>rid = req_rid req, args = v\<rparr>) rt2, dr'))"
  using assms by (auto simp add: dispose_def emit_all handleDelegateRequest_def lookup_fn_def)

theorem dispose_notifies_and_keeps_functions_witness:
  "microtasks (fst (snd (dispose (example_runtime, example_delegator))))
     = [Ev_unregister \<lparr>senderId = ''self'', delegatorId = ''A''\<rparr>,
        Ev_unregister \<lparr>senderId = ''self'', delegatorId = ''B''\<rparr>] \<and>
   map_of (fn_pool example_delegator) ''A'' = Some add42 \<and> add42 [VNum 21] = Inr (VNum 63) \<and>
   handleDelegateRequest Map.empty \<lparr>req_id = ''A'', req_rid = ''r1'', req_args = [VNum 21]\<rparr>
       (example_runtime, snd (snd (dispose (example_runtime, example_delegator))))
     = (Inr (), emit (Ev_delegate_reply \<lparr>rid = ''r1'', args = VNum 63\<rparr>) example_runtime,
        example_delegator)"
proof -
  let ?c = "dispose (example_runtime, example_delegator)"
  let ?req = "\<lparr>req_id = ''A'', req_rid = ''r1'', req_args = [VNum 21]\<rparr>"
  have c: "?c = (fst ?c, fst (snd ?c), snd (snd ?c))" by simp
  have f: "map_of (fn_pool example_delegator) (req_id ?req) = Some add42"
    by (simp add: example_delegator_def)
  have v: "add42 (req_args ?req) = Inr (VNum 63)" by (simp add: add42_def)
  note t = dispose_notifies_and_keeps_functions [OF c, of Map.empty]
  from t have q: "microtasks (fst (snd ?c)) = microtasks example_runtime @
      map (\<lambda>k. Ev_unregister \<lparr>senderId = own_id example_delegator, delegatorId = k\<rparr>)
        (map fst (fn_pool example_delegator))"
    and k: "snd (snd ?c) = example_delegator" by simp_all
  from t f v have "handleDelegateRequest Map.empty ?req (example_runtime, snd (snd ?c))
      = (Inr (), emit (Ev_delegate_reply \<lparr>rid = req_rid ?req, args = VNum 63\<rparr>) example_runtime,
         snd (snd ?c))"
    by blast
  with q k f v show ?thesis
    by (simp add: example_runtime_def example_delegator_def)
qed

subsection \<open>C7: the reply of an asynchronous function\<close>

text \<open>
  The claim says that the registry awaits the result, so that the reply carries settled
  values. It does not await: the reply carries what the function returned, and for an
  \<^verbatim>\<open>async\<close> function that is the promise.
\<close>

theorem reply_carries_promise_counterexample:
  "map_of (fn_pool example_delegator) ''B'' = Some async_fn \<and>
   async_fn [VNum 1] = Inr (VPromise 0) \<and> is_promise (VPromise 0) \<and>
   handleDelegateRequest Map.empty \<lparr>req_id = ''B'', req_rid = ''r1'', req_args = [VNum 1]\<rparr>
       (example_runtime, example_delegator)
     = (Inr (),
        example_runtime\<lparr>microtasks := [Ev_delegate_reply \<lparr>rid = ''r1'', args = VPromise 0\<rparr>]\<rparr>,
        example_delegator)"
  by (simp add: handleDelegateRequest_def lookup_fn_def example_delegator_def
      example_runtime_def emit_def async_fn_def)

text \<open>
  Claim C7, amended. For a call request whose function returns \<open>v\<close>, the registry queues
  the reply with the request's reply identifier and with \<open>v\<close> itself as \<^verbatim>\<open>args\<close>, whatever
  \<open>v\<close> is: for an asynchronous function the reply carries the promise it returned, not
  the values the promise settles with. Nothing else changes.
\<close>

theorem reply_carries_returned_value:
  assumes "map_of (fn_pool dr) (req_id req) = Some f"
    and "f (req_args req) = Inr v"
  shows "handleDelegateRequest inherited req (rt, dr)
           = (Inr (),
              rt\<lparr>microtasks := microtasks rt @ [Ev_delegate_reply \<lparr>rid = req_rid req, args = v\<rparr>]\<rparr>,
              dr)"
  using assms by (simp add: handleDelegateRequest_def lookup_fn_def emit_def)

theorem reply_carries_returned_value_witness:
  "map_of (fn_pool example_delegator) ''B'' = Some async_fn \<and>
   async_fn [VNum 1] = Inr (VPromise 0) \<and>
   handleDelegateRequest Map.empty \<lparr>req_id = ''B'', req_rid = ''r2'', req_args = [VNum 1]\<rparr>
       (example_runtime, example_delegator)
     = (Inr (),
        example_runtime\<lparr>microtasks := [Ev_delegate_reply \<lparr>rid = ''r2'', args = VPromise 0\<rparr>]\<rparr>,
        example_delegator)"
proof -
  let ?req = "\<lparr>req_id = ''B'', req_rid = ''r2'', req_args = [VNum 1]\<rparr>"
  have f: "map_of (fn_pool example_delegator) (req_id ?req) = Some async_fn"
    by (simp add: example_delegator_def)
  have v: "async_fn (req_args ?req) = Inr (VPromise 0)" by (simp add: async_fn_def)
  from reply_carries_returned_value [OF f v, of Map.empty example_runtime] f v
  show ?thesis by (simp add: example_runtime_def)
qed

subsection \<open>C8: an unregistration notice\<close>

text \<open>
  Claim C8. \<open>handleUnregisterRequest\<close> removes the noticed identifier from \<open>delegates\<close>
  and changes nothing else: \<open>pool\<close> keeps every entry, every Deferred is as it was (a
  pending one stays pending), every other identifier is in \<open>delegates\<close> exactly if it was
  before, and a later \<open>delegate\<close> of the noticed identifier throws.
\<close>

theorem unregister_frame:
  assumes "handleUnregisterRequest req (rt, dp) = (out, rt', dp')"
  shows "out = Inr () \<and>
         delegates dp' = delegates dp - {delegatorId req} \<and>
         pool dp' = pool dp \<and> rt' = rt \<and>
         (\<forall>r d. pool dp r = Some d \<longrightarrow> pool dp' r = Some d \<and> heap rt' ! d = heap rt ! d) \<and>
         (\<forall>j. j \<noteq> delegatorId req \<longrightarrow> (j \<in> delegates dp') = (j \<in> delegates dp)) \<and>
         (\<forall>gen as. delegate gen (delegatorId req) as (rt', dp')
            = (Inl (UnregisteredDelegate (delegatorId req)), rt', dp'))"
  using assms by (auto simp add: handleUnregisterRequest_def delegate_def)

theorem unregister_frame_witness:
  "delegates (snd (snd (handleUnregisterRequest \<lparr>senderId = ''self'', delegatorId = ''A''\<rparr>
       (example_runtime, create ''C'' example_delegates)))) = {''C''} \<and>
   pool (create ''C'' example_delegates) ''r1'' = Some 0 \<and>
   pool (snd (snd (handleUnregisterRequest \<lparr>senderId = ''self'', delegatorId = ''A''\<rparr>
       (example_runtime, create ''C'' example_delegates)))) ''r1'' = Some 0 \<and>
   heap (fst (snd (handleUnregisterRequest \<lparr>senderId = ''self'', delegatorId = ''A''\<rparr>
       (example_runtime, create ''C'' example_delegates)))) ! 0 = Pending \<and>
   fst (delegate example_gen ''A'' [VNum 1]
       (snd (handleUnregisterRequest \<lparr>senderId = ''self'', delegatorId = ''A''\<rparr>
          (example_runtime, create ''C'' example_delegates))))
     = Inl (UnregisteredDelegate ''A'')"
proof -
  let ?req = "\<lparr>senderId = ''self'', delegatorId = ''A''\<rparr>"
  let ?dp = "create ''C'' example_delegates"
  let ?c = "handleUnregisterRequest ?req (example_runtime, ?dp)"
  have c: "?c = (fst ?c, fst (snd ?c), snd (snd ?c))" by simp
  have p: "pool ?dp ''r1'' = Some 0" by (simp add: create_def example_delegates_def)
  have d: "delegates ?dp - {delegatorId ?req} = {''C''}"
    by (auto simp add: create_def example_delegates_def)
  have s: "snd ?c = (fst (snd ?c), snd (snd ?c))" by simp
  note t = unregister_frame [OF c]
  from t d have "delegates (snd (snd ?c)) = {''C''}" by simp
  moreover from t p have "pool (snd (snd ?c)) ''r1'' = Some 0" by simp
  moreover from t have "heap (fst (snd ?c)) ! 0 = Pending" by (simp add: example_runtime_def)
  moreover from t have "delegate example_gen (delegatorId ?req) [VNum 1] (fst (snd ?c), snd (snd ?c))
      = (Inl (UnregisteredDelegate (delegatorId ?req)), fst (snd ?c), snd (snd ?c))"
    by blast
  then have "fst (delegate example_gen ''A'' [VNum 1] (snd ?c)) = Inl (UnregisteredDelegate ''A'')"
    by simp
  ultimately show ?thesis using p by blast
qed

subsection \<open>C9: a registration acknowledgment\<close>

text \<open>
  The claim says that an acknowledgment without a waiter is ignored. It is not:
  \<^verbatim>\<open>this.uponRegister[req.delegatorId]\<close> is \<^verbatim>\<open>undefined\<close> and reading \<^verbatim>\<open>resolve\<close> of it throws a
  \<^verbatim>\<open>TypeError\<close>.
\<close>

theorem register_reply_without_waiter_counterexample:
  "uponRegister example_delegator ''B'' = None \<and>
   handleRegisterReply \<lparr>reply_delegatorId = ''B''\<rparr> (example_runtime, example_delegator)
     = (Inl TypeError, example_runtime, example_delegator)"
  by (simp add: handleRegisterReply_def example_delegator_def)

text \<open>
  Claim C9, amended. When \<open>uponRegister\<close> has a Deferred for the acknowledged identifier,
  \<open>handleRegisterReply\<close> calls its \<^verbatim>\<open>resolve\<close>, so that a pending promise becomes resolved;
  when it has none, \<open>handleRegisterReply\<close> throws a \<^verbatim>\<open>TypeError\<close> and changes nothing.
\<close>

theorem register_reply_resolves_or_throws:
  assumes "handleRegisterReply req (rt, dr) = (out, rt', dr')"
  shows "(\<forall>d. uponRegister dr (reply_delegatorId req) = Some d \<longrightarrow>
            out = Inr () \<and> rt' = Deferred_resolve d VUndefined rt \<and> dr' = dr \<and>
            (d < length (heap rt) \<and> heap rt ! d = Pending \<longrightarrow>
               heap rt' ! d = Resolved VUndefined)) \<and>
         (uponRegister dr (reply_delegatorId req) = None \<longrightarrow>
            out = Inl TypeError \<and> rt' = rt \<and> dr' = dr)"
  using assms by (auto simp add: handleRegisterReply_def Deferred_resolve_def)

theorem register_reply_resolves_or_throws_witness:
  "uponRegister example_delegator ''A'' = Some 1 \<and> heap example_runtime ! 1 = Pending \<and>
   fst (handleRegisterReply \<lparr>reply_delegatorId = ''A''\<rparr> (example_runtime, example_delegator))
     = Inr () \<and>
   heap (fst (snd (handleRegisterReply \<lparr>reply_delegatorId = ''A''\<rparr>
                     (example_runtime, example_delegator)))) ! 1
     = Resolved VUndefined \<and>
   uponRegister example_delegator ''B'' = None \<and>
   handleRegisterReply \<lparr>reply_delegatorId = ''B''\<rparr> (example_runtime, example_delegator)
     = (Inl TypeError, example_runtime, example_delegator)"
proof -
  let ?a = "handleRegisterReply \<lparr>reply_delegatorId = ''A''\<rparr> (example_runtime, example_delegator)"
  let ?b = "handleRegisterReply \<lparr>reply_delegatorId = ''B''\<rparr> (example_runtime, example_delegator)"
  have a: "?a = (fst ?a, fst (snd ?a), snd (snd ?a))"
    and b: "?b = (fst ?b, fst (snd ?b), snd (snd ?b))" by simp_all
  have wa: "uponRegister example_delegator ''A'' = Some 1"
    and wb: "uponRegister example_delegator ''B'' = None"
    by (simp_all add: example_delegator_def)
  have p: "1 < length (heap example_runtime)" "heap example_runtime ! 1 = Pending"
    by (simp_all add: example_runtime_def)
  from register_reply_resolves_or_throws [OF a] wa p
  have "fst ?a = Inr ()" "heap (fst (snd ?a)) ! 1 = Resolved VUndefined"
    by (simp_all add: Deferred_resolve_def example_runtime_def)
  moreover from register_reply_resolves_or_throws [OF b] wb
  have "fst ?b = Inl TypeError" "fst (snd ?b) = example_runtime" "snd (snd ?b) = example_delegator"
    by simp_all
  then have "?b = (Inl TypeError, example_runtime, example_delegator)"
    by (metis b)
  ultimately show ?thesis using wa wb p by blast
qed

subsection \<open>C10: the pending call is stored before the request is delivered\<close>

text \<open>
  Claim C10. Let \<open>w\<close> be any state the program reaches from its start, by microtasks and
  by calls from outside the pools in any order. A call of a registered identifier in
  \<open>w\<close> returns normally; when it returns, \<open>pool\<close> holds the new Deferred under the new
  reply identifier, and the request is the last event of the microtask queue: no listener
  has seen it, and the registry is as it was. In \<open>w\<close> and after the call, every call
  request and every call reply in the queue has its entry in \<open>pool\<close>, with a Deferred
  that exists; so a reply that is delivered next finds its entry and does not throw.
\<close>

theorem pending_call_stored_before_delivery:
  assumes "w = run gen inherited acts (main_start gen)"
    and "i \<in> delegates (main_delegates w)"
    and "exec gen inherited (Call i as) w = (out, w')"
  shows "pending_first (main_runtime w) (main_delegates w) \<and>
         out = Inr () \<and>
         pool (main_delegates w') (gen (drawn (main_runtime w))) = Some (length (heap (main_runtime w))) \<and>
         microtasks (main_runtime w') = microtasks (main_runtime w) @
           [Ev_delegate \<lparr>req_id = i, req_rid = gen (drawn (main_runtime w)), req_args = as\<rparr>] \<and>
         main_delegators w' = main_delegators w \<and>
         pending_first (main_runtime w') (main_delegates w') \<and>
         (\<forall>reply es. microtasks (main_runtime w) = Ev_delegate_reply reply # es \<longrightarrow>
            fst (run_microtask inherited w) = Inr ())"
proof -
  have inv: "world_pending_first w"
    using assms(1) world_pending_first_run [OF world_pending_first_main_start] by simp
  have inv': "world_pending_first w'"
    using inv assms(3) world_pending_first_exec by blast
  have call: "out = Inr () \<and>
         pool (main_delegates w') (gen (drawn (main_runtime w))) = Some (length (heap (main_runtime w))) \<and>
         microtasks (main_runtime w') = microtasks (main_runtime w) @
           [Ev_delegate \<lparr>req_id = i, req_rid = gen (drawn (main_runtime w)), req_args = as\<rparr>] \<and>
         main_delegators w' = main_delegators w"
    using assms(3) by (auto simp add: on_delegates_def delegate_registered [OF assms(2)])
  have reply: "fst (run_microtask inherited w) = Inr ()"
    if "microtasks (main_runtime w) = Ev_delegate_reply reply # es" for reply es
  proof -
    have "has_pending (main_runtime w) (main_delegates w) (Ev_delegate_reply reply)"
      using inv that by (simp add: world_pending_first_def pending_first_def)
    then obtain d where "pool (main_delegates w) (rid reply) = Some d"
      by (auto simp add: has_pending_def split: option.splits)
    then show ?thesis using that
      by (simp add: run_microtask_def on_delegates_def handleDelegateReply_def)
  qed
  show ?thesis using inv inv' call reply by (simp add: world_pending_first_def)
qed

text \<open>
  The state after one function has been registered and called once, with the reply
  waiting in the queue; then a second call.
\<close>

theorem pending_call_stored_before_delivery_witness:
  "microtasks (main_runtime example_world)
     = [Ev_delegate_reply \<lparr>rid = example_gen 2, args = VNum 63\<rparr>] \<and>
   pool (main_delegates example_world) (example_gen 2) = Some 1 \<and>
   length (heap (main_runtime example_world)) = 2 \<and>
   example_gen 1 \<in> delegates (main_delegates example_world) \<and>
   pending_first (main_runtime example_world) (main_delegates example_world) \<and>
   fst (exec example_gen Map.empty (Call (example_gen 1) [VNum 1]) example_world) = Inr () \<and>
   pool (main_delegates (snd (exec example_gen Map.empty (Call (example_gen 1) [VNum 1])
       example_world))) (example_gen 3) = Some 2 \<and>
   microtasks (main_runtime (snd (exec example_gen Map.empty (Call (example_gen 1) [VNum 1])
       example_world)))
     = [Ev_delegate_reply \<lparr>rid = example_gen 2, args = VNum 63\<rparr>,
        Ev_delegate \<lparr>req_id = example_gen 1, req_rid = example_gen 3, req_args = [VNum 1]\<rparr>] \<and>
   fst (run_microtask Map.empty example_world) = Inr ()"
proof -
  let ?c = "exec example_gen Map.empty (Call (example_gen 1) [VNum 1]) example_world"
  have w: "example_world = run example_gen Map.empty example_acts (main_start example_gen)"
    by (simp add: example_world_def)
  have q: "microtasks (main_runtime example_world)
      = [Ev_delegate_reply \<lparr>rid = example_gen 2, args = VNum 63\<rparr>]"
    and p: "pool (main_delegates example_world) (example_gen 2) = Some 1"
    and l: "length (heap (main_runtime example_world)) = 2"
    and d: "drawn (main_runtime example_world) = 3"
    and i: "example_gen 1 \<in> delegates (main_delegates example_world)"
    by (simp_all add: example_world_evaluated)
  have c: "?c = (fst ?c, snd ?c)" by simp
  note t = pending_call_stored_before_delivery [OF w i c]
  from t have "pending_first (main_runtime example_world) (main_delegates example_world)"
    and "fst ?c = Inr ()"
    and "pool (main_delegates (snd ?c)) (example_gen 3) = Some 2"
    and "microtasks (main_runtime (snd ?c))
      = [Ev_delegate_reply \<lparr>rid = example_gen 2, args = VNum 63\<rparr>,
         Ev_delegate \<lparr>req_id = example_gen 1, req_rid = example_gen 3, req_args = [VNum 1]\<rparr>]"
    unfolding q l d by simp_all
  moreover from t q have "fst (run_microtask Map.empty example_world) = Inr ()"
    by blast
  ultimately show ?thesis using q p l i by blast
qed

end
